theory Spec2Isabelle
  imports Complex_Main
begin

section \<open>Decimal numbers of the standard library\<close>

text \<open>
  \<^verbatim>\<open>backend/app.py\<close> computes with Python's \<^verbatim>\<open>decimal.Decimal\<close> under the default
  context: precision 28, rounding \<^verbatim>\<open>ROUND_HALF_EVEN\<close>, \<^verbatim>\<open>Emax = 999999\<close>, \<^verbatim>\<open>Emin = -999999\<close>,
  \<^verbatim>\<open>clamp = 0\<close>, traps on \<^verbatim>\<open>InvalidOperation\<close>, \<^verbatim>\<open>DivisionByZero\<close> and \<^verbatim>\<open>Overflow\<close>.
  A finite Decimal is a sign, a coefficient and an exponent; the coefficient (a digit string
  without leading zeros in the library) is a natural number here, and the library's slicing
  of that digit string is written with \<open>div\<close> and \<open>mod\<close> by powers of ten.
  The sign and payload of a NaN are not represented: nothing in the program observes them.
  Strings are ASCII: code points above 127 are outside this model.
\<close>

datatype fdec = FDec (neg: bool) (coeff: nat) (expo: int)

datatype decimal = Finite fdec | Infinity bool | NaN bool

text \<open>The trapped signals of the default context, raised as exceptions.\<close>

datatype exn = InvalidOperation | DivisionByZero | Overflow

definition prec :: nat where "prec = 28"
definition Emax :: int where "Emax = 999999"
definition Emin :: int where "Emin = - 999999"
definition Etiny :: int where "Etiny = Emin - int prec + 1"
definition Etop :: int where "Etop = Emax - int prec + 1"

text \<open>\<open>ndigits c\<close> is \<^verbatim>\<open>len(self._int)\<close>, the number of decimal digits of the coefficient.\<close>

fun ndigits :: "nat \<Rightarrow> nat" where
  "ndigits n = (if n < 10 then 1 else Suc (ndigits (n div 10)))"

declare ndigits.simps [simp del]

definition adjusted :: "fdec \<Rightarrow> int" where
  "adjusted d = expo d + int (ndigits (coeff d)) - 1"

text \<open>The exact value of a finite Decimal.\<close>

definition dec_val :: "fdec \<Rightarrow> rat" where
  "dec_val d = (if neg d then - 1 else 1) * of_nat (coeff d) * 10 powi expo d"

subsection \<open>Rounding\<close>

text \<open>
  The rounding functions take the coefficient and the number \<open>p\<close> of leading digits to keep,
  \<open>0 \<le> p < ndigits c\<close>, and answer \<open>1\<close> (round away from zero), \<open>0\<close> (the dropped digits
  are all zero) or \<open>-1\<close> (truncate nonzero digits).
  \<open>head_digits c p\<close> is \<^verbatim>\<open>int(self._int[:p] or '0')\<close>, \<open>tail_digits c p\<close> is the number written
  by the dropped digits \<^verbatim>\<open>self._int[p:]\<close>, and \<open>half_unit c p\<close> is the number written by a
  \<^verbatim>\<open>5\<close> followed by zeros in those positions.
\<close>

definition head_digits :: "nat \<Rightarrow> nat \<Rightarrow> nat" where
  "head_digits c p = c div 10 ^ (ndigits c - p)"

definition tail_digits :: "nat \<Rightarrow> nat \<Rightarrow> nat" where
  "tail_digits c p = c mod 10 ^ (ndigits c - p)"

definition half_unit :: "nat \<Rightarrow> nat \<Rightarrow> nat" where
  "half_unit c p = 5 * 10 ^ (ndigits c - p - 1)"

definition round_half_up :: "nat \<Rightarrow> nat \<Rightarrow> int" where
  "round_half_up c p =
     (if half_unit c p \<le> tail_digits c p then 1
      else if tail_digits c p = 0 then 0
      else - 1)"

definition round_half_even :: "nat \<Rightarrow> nat \<Rightarrow> int" where
  "round_half_even c p =
     (if tail_digits c p = half_unit c p \<and> (p = 0 \<or> even (head_digits c p)) then - 1
      else round_half_up c p)"

text \<open>\<^verbatim>\<open>Decimal._fix\<close>: round to the context's precision and check the exponent range.\<close>

definition dec_fix :: "fdec \<Rightarrow> exn + fdec" where
  "dec_fix d =
     (if coeff d = 0 then Inr (FDec (neg d) 0 (min (max (expo d) Etiny) Emax))
      else
        let exp_min0 = int (ndigits (coeff d)) + expo d - int prec in
        if exp_min0 > Etop then Inl Overflow
        else
          let self_is_subnormal = exp_min0 < Etiny;
              exp_min = (if self_is_subnormal then Etiny else exp_min0) in
          if expo d < exp_min then
            let digits0 = int (ndigits (coeff d)) + expo d - exp_min;
                c = (if digits0 < 0 then 1 else coeff d);
                digits = (if digits0 < 0 then 0 else nat digits0);
                changed = round_half_even c digits;
                coeff0 = head_digits c digits;
                bumped = (0 < changed \<and> prec < ndigits (coeff0 + 1));
                coeff1 = (if 0 < changed
                          then (if bumped then (coeff0 + 1) div 10 else coeff0 + 1)
                          else coeff0);
                exp_min1 = (if bumped then exp_min + 1 else exp_min) in
            if exp_min1 > Etop then Inl Overflow
            else Inr (FDec (neg d) coeff1 exp_min1)
          else Inr d)"

text \<open>\<^verbatim>\<open>Decimal._rescale\<close> with \<^verbatim>\<open>ROUND_HALF_UP\<close>, the only rounding the program passes.\<close>

definition rescale :: "fdec \<Rightarrow> int \<Rightarrow> fdec" where
  "rescale d e =
     (if coeff d = 0 then FDec (neg d) 0 e
      else if e \<le> expo d then FDec (neg d) (coeff d * 10 ^ nat (expo d - e)) e
      else
        let digits0 = int (ndigits (coeff d)) + expo d - e;
            c = (if digits0 < 0 then 1 else coeff d);
            digits = (if digits0 < 0 then 0 else nat digits0);
            changed = round_half_up c digits;
            coeff0 = head_digits c digits in
        FDec (neg d) (if changed = 1 then coeff0 + 1 else coeff0) e)"

text \<open>
  \<^verbatim>\<open>Decimal.quantize(exp, rounding=ROUND_HALF_UP)\<close>, where \<open>q\<close> is the finite Decimal passed as
  \<^verbatim>\<open>exp\<close>: only its exponent is used.
\<close>

definition quantize :: "decimal \<Rightarrow> fdec \<Rightarrow> exn + decimal" where
  "quantize x q =
     (case x of
        NaN s \<Rightarrow> if s then Inl InvalidOperation else Inr (NaN False)
      | Infinity s \<Rightarrow> Inl InvalidOperation
      | Finite d \<Rightarrow>
          if \<not> (Etiny \<le> expo q \<and> expo q \<le> Emax) then Inl InvalidOperation
          else if coeff d = 0 then map_sum id Finite (dec_fix (FDec (neg d) 0 (expo q)))
          else if adjusted d > Emax then Inl InvalidOperation
          else if adjusted d - expo q + 1 > int prec then Inl InvalidOperation
          else
            let ans = rescale d (expo q) in
            if adjusted ans > Emax then Inl InvalidOperation
            else if ndigits (coeff ans) > prec then Inl InvalidOperation
            else map_sum id Finite (dec_fix ans))"

subsection \<open>Multiplication, division and comparison\<close>

text \<open>
  \<^verbatim>\<open>Decimal._check_nans\<close>: a signalling NaN operand raises, otherwise a quiet NaN operand
  is the result of the operation.
\<close>

definition check_nans :: "decimal \<Rightarrow> decimal \<Rightarrow> (exn + decimal) option" where
  "check_nans x y =
     (if x = NaN True \<or> y = NaN True then Some (Inl InvalidOperation)
      else if x = NaN False \<or> y = NaN False then Some (Inr (NaN False))
      else None)"

text \<open>\<^verbatim>\<open>Decimal.__mul__\<close>: the finite case, then the special values.\<close>

definition mul_finite :: "fdec \<Rightarrow> fdec \<Rightarrow> exn + fdec" where
  "mul_finite x y = dec_fix (FDec (neg x \<noteq> neg y) (coeff x * coeff y) (expo x + expo y))"

definition mul :: "decimal \<Rightarrow> decimal \<Rightarrow> exn + decimal" where
  "mul x y =
     (case check_nans x y of
        Some r \<Rightarrow> r
      | None \<Rightarrow>
          (case x of
             Infinity s \<Rightarrow>
               (case y of
                  Finite b \<Rightarrow> if coeff b = 0 then Inl InvalidOperation
                              else Inr (Infinity (s \<noteq> neg b))
                | Infinity t \<Rightarrow> Inr (Infinity (s \<noteq> t))
                | NaN t \<Rightarrow> Inr (NaN False))
           | Finite a \<Rightarrow>
               (case y of
                  Finite b \<Rightarrow> map_sum id Finite (mul_finite a b)
                | Infinity t \<Rightarrow> if coeff a = 0 then Inl InvalidOperation
                                else Inr (Infinity (neg a \<noteq> t))
                | NaN t \<Rightarrow> Inr (NaN False))
           | NaN s \<Rightarrow> Inr (NaN False)))"

text \<open>
  The loop of \<^verbatim>\<open>__truediv__\<close> that brings an exact quotient towards the ideal exponent:
  \<^verbatim>\<open>while exp < ideal_exp and coeff % 10 == 0: coeff //= 10; exp += 1\<close>.
\<close>

function strip_zeros :: "nat \<Rightarrow> int \<Rightarrow> int \<Rightarrow> nat \<times> int" where
  "strip_zeros c e ideal =
     (if e < ideal \<and> c mod 10 = 0 then strip_zeros (c div 10) (e + 1) ideal else (c, e))"
  by pat_completeness auto
termination
  by (relation "measure (\<lambda>(c, e, ideal). nat (ideal - e))") auto

declare strip_zeros.simps [simp del]

text \<open>\<^verbatim>\<open>Decimal.__truediv__\<close>: the finite case, then the special values.\<close>

definition truediv_finite :: "fdec \<Rightarrow> fdec \<Rightarrow> exn + fdec" where
  "truediv_finite x y =
     (let sign = (neg x \<noteq> neg y) in
      if coeff y = 0 then (if coeff x = 0 then Inl InvalidOperation else Inl DivisionByZero)
      else if coeff x = 0 then dec_fix (FDec sign 0 (expo x - expo y))
      else
        let shift = int (ndigits (coeff y)) - int (ndigits (coeff x)) + int prec + 1;
            e = expo x - expo y - shift;
            n = (if 0 \<le> shift then coeff x * 10 ^ nat shift else coeff x);
            m = (if 0 \<le> shift then coeff y else coeff y * 10 ^ nat (- shift));
            q = n div m;
            r = n mod m in
        if r \<noteq> 0 then dec_fix (FDec sign (if q mod 5 = 0 then q + 1 else q) e)
        else (case strip_zeros q e (expo x - expo y) of (q', e') \<Rightarrow> dec_fix (FDec sign q' e')))"

definition truediv :: "decimal \<Rightarrow> decimal \<Rightarrow> exn + decimal" where
  "truediv x y =
     (case check_nans x y of
        Some r \<Rightarrow> r
      | None \<Rightarrow>
          (case x of
             Infinity s \<Rightarrow>
               (case y of
                  Finite b \<Rightarrow> Inr (Infinity (s \<noteq> neg b))
                | Infinity t \<Rightarrow> Inl InvalidOperation
                | NaN t \<Rightarrow> Inr (NaN False))
           | Finite a \<Rightarrow>
               (case y of
                  Finite b \<Rightarrow> map_sum id Finite (truediv_finite a b)
                | Infinity t \<Rightarrow> Inr (Finite (FDec (neg a \<noteq> t) 0 Etiny))
                | NaN t \<Rightarrow> Inr (NaN False))
           | NaN s \<Rightarrow> Inr (NaN False)))"

text \<open>
  \<^verbatim>\<open>amount < 0\<close>: an ordering comparison with a NaN signals \<^verbatim>\<open>InvalidOperation\<close>;
  a negative zero is not below zero.
\<close>

definition lt_zero :: "decimal \<Rightarrow> exn + bool" where
  "lt_zero x =
     (case x of
        NaN s \<Rightarrow> Inl InvalidOperation
      | Infinity s \<Rightarrow> Inr s
      | Finite d \<Rightarrow> Inr (neg d \<and> coeff d \<noteq> 0))"

text \<open>
  \<^verbatim>\<open>x != 0\<close>: the negation of \<^verbatim>\<open>__eq__\<close>, which raises on a signalling NaN and answers
  \<^verbatim>\<open>False\<close> on a quiet one.
\<close>

definition ne_zero :: "decimal \<Rightarrow> exn + bool" where
  "ne_zero x =
     (case x of
        NaN s \<Rightarrow> if s then Inl InvalidOperation else Inr True
      | Infinity s \<Rightarrow> Inr True
      | Finite d \<Rightarrow> Inr (coeff d \<noteq> 0))"

section \<open>Strings\<close>

text \<open>\<^verbatim>\<open>str.upper\<close> and the case folding of \<^verbatim>\<open>re.IGNORECASE\<close>, on ASCII.\<close>

definition upper_char :: "char \<Rightarrow> char" where
  "upper_char c =
     (case map_of (zip ''abcdefghijklmnopqrstuvwxyz'' ''ABCDEFGHIJKLMNOPQRSTUVWXYZ'') c of
        None \<Rightarrow> c | Some u \<Rightarrow> u)"

definition upper :: "string \<Rightarrow> string" where
  "upper s = map upper_char s"

definition lower_char :: "char \<Rightarrow> char" where
  "lower_char c =
     (case map_of (zip ''ABCDEFGHIJKLMNOPQRSTUVWXYZ'' ''abcdefghijklmnopqrstuvwxyz'') c of
        None \<Rightarrow> c | Some u \<Rightarrow> u)"

text \<open>\<^verbatim>\<open>str.strip\<close> removes the characters for which \<^verbatim>\<open>str.isspace\<close> holds.\<close>

definition is_space :: "char \<Rightarrow> bool" where
  "is_space c \<longleftrightarrow>
     c \<in> set [CHR 0x09, CHR 0x0A, CHR 0x0B, CHR 0x0C, CHR 0x0D,
              CHR 0x1C, CHR 0x1D, CHR 0x1E, CHR 0x1F, CHR 0x20]"

definition strip :: "string \<Rightarrow> string" where
  "strip s = rev (dropWhile is_space (rev (dropWhile is_space s)))"

definition is_digit :: "char \<Rightarrow> bool" where
  "is_digit c \<longleftrightarrow> c \<in> set ''0123456789''"

definition digit_val :: "char \<Rightarrow> nat" where
  "digit_val c = of_char c - 48"

text \<open>\<^verbatim>\<open>int(s)\<close> for a string of digits.\<close>

definition int_of_digits :: "string \<Rightarrow> nat" where
  "int_of_digits s = foldl (\<lambda>a c. 10 * a + digit_val c) 0 s"

definition digit_char :: "nat \<Rightarrow> char" where
  "digit_char n = ''0123456789'' ! n"

text \<open>\<^verbatim>\<open>str(n)\<close> for a non-negative integer, and the format \<^verbatim>\<open>"%+d"\<close>.\<close>

fun str_nat :: "nat \<Rightarrow> string" where
  "str_nat n = (if n < 10 then [digit_char n] else str_nat (n div 10) @ [digit_char (n mod 10)])"

declare str_nat.simps [simp del]

definition str_signed :: "int \<Rightarrow> string" where
  "str_signed i = (if i < 0 then ''-'' @ str_nat (nat (- i)) else ''+'' @ str_nat (nat i))"

subsection \<open>Decimals from and to strings\<close>

text \<open>
  \<^verbatim>\<open>Decimal.__str__\<close> of a finite Decimal (scientific notation, \<^verbatim>\<open>capitals = 1\<close>).
\<close>

definition str_fdec :: "fdec \<Rightarrow> string" where
  "str_fdec d =
     (let sign = (if neg d then ''-'' else []);
          ds = str_nat (coeff d);
          leftdigits = expo d + int (length ds);
          dotplace = (if expo d \<le> 0 \<and> - 6 < leftdigits then leftdigits else 1);
          intpart = (if dotplace \<le> 0 then ''0''
                     else if int (length ds) \<le> dotplace
                       then ds @ replicate (nat (dotplace - int (length ds))) (CHR ''0'')
                     else take (nat dotplace) ds);
          fracpart = (if dotplace \<le> 0 then ''.'' @ replicate (nat (- dotplace)) (CHR ''0'') @ ds
                      else if int (length ds) \<le> dotplace then []
                      else ''.'' @ drop (nat dotplace) ds);
          ex = (if leftdigits = dotplace then [] else ''E'' @ str_signed (leftdigits - dotplace))
      in sign @ intpart @ fracpart @ ex)"

text \<open>
  The constructor \<^verbatim>\<open>Decimal(s)\<close> on a string. The library matches
  \<^verbatim>\<open>s.strip().replace("_", "")\<close> against the regular expression
  \<^verbatim>\<open>[-+]?((?=\d|\.\d)\d*(\.\d*)?(E[-+]?\d+)?|Inf(inity)?|s?NaN\d*)\Z\<close>, ignoring case.
  \<open>split_sign\<close> is the optional sign, \<open>parse_exp\<close> the optional exponent up to the end of
  the string, \<open>parse_number\<close> the first alternative: it answers the coefficient
  \<^verbatim>\<open>int(intpart + fracpart)\<close> and the exponent \<^verbatim>\<open>exp - len(fracpart)\<close>.
  A string that does not match signals \<^verbatim>\<open>ConversionSyntax\<close>, an \<^verbatim>\<open>InvalidOperation\<close>.
\<close>

definition split_sign :: "string \<Rightarrow> bool \<times> string" where
  "split_sign s =
     (case s of
        [] \<Rightarrow> (False, s)
      | c # t \<Rightarrow> if c = CHR ''-'' then (True, t) else if c = CHR ''+'' then (False, t) else (False, s))"

definition parse_exp :: "string \<Rightarrow> int option" where
  "parse_exp s =
     (case s of
        [] \<Rightarrow> Some 0
      | c # t \<Rightarrow>
          if c = CHR ''E'' \<or> c = CHR ''e'' then
            (case split_sign t of (sg, ds) \<Rightarrow>
               if ds \<noteq> [] \<and> list_all is_digit ds
               then Some (if sg then - int (int_of_digits ds) else int (int_of_digits ds))
               else None)
          else None)"

definition parse_number :: "string \<Rightarrow> (nat \<times> int) option" where
  "parse_number s =
     (let intpart = takeWhile is_digit s;
          r1 = dropWhile is_digit s;
          has_frac = (r1 \<noteq> [] \<and> hd r1 = CHR ''.'');
          fracpart = (if has_frac then takeWhile is_digit (tl r1) else []);
          r2 = (if has_frac then dropWhile is_digit (tl r1) else r1)
      in if intpart = [] \<and> fracpart = [] then None
         else (case parse_exp r2 of
                 None \<Rightarrow> None
               | Some e \<Rightarrow> Some (int_of_digits (intpart @ fracpart), e - int (length fracpart))))"

definition parse_special :: "bool \<Rightarrow> string \<Rightarrow> decimal option" where
  "parse_special sg s =
     (let low = map lower_char s in
      if low = ''inf'' \<or> low = ''infinity'' then Some (Infinity sg)
      else if take 3 low = ''nan'' \<and> list_all is_digit (drop 3 low) then Some (NaN False)
      else if take 4 low = ''snan'' \<and> list_all is_digit (drop 4 low) then Some (NaN True)
      else None)"

definition Decimal_of_str :: "string \<Rightarrow> exn + decimal" where
  "Decimal_of_str v =
     (case split_sign (filter (\<lambda>c. c \<noteq> CHR ''_'') (strip v)) of (sg, body) \<Rightarrow>
        (case parse_number body of
           Some (c, e) \<Rightarrow> Inr (Finite (FDec sg c e))
         | None \<Rightarrow>
             (case parse_special sg body of
                Some x \<Rightarrow> Inr x
              | None \<Rightarrow> Inl InvalidOperation)))"

section \<open>The conversion service of \<^verbatim>\<open>backend/app.py\<close>\<close>

subsection \<open>The rate store\<close>

text \<open>
  An item of the DynamoDB table \<^verbatim>\<open>Rates\<close>, as \<^verbatim>\<open>get_item\<close> returns it:
  \<^verbatim>\<open>{"base": ..., "rates": {"EUR": Decimal, ...}, "asOf": ...}\<close>. The key attribute
  \<^verbatim>\<open>base\<close> is always present, so an item is a non-empty dictionary and is true in
  a condition; \<^verbatim>\<open>rates\<close> and \<^verbatim>\<open>asOf\<close> may be absent. Numbers of the table are finite
  Decimals. The table is read by key only.
\<close>

record item =
  rates :: "(string \<rightharpoonup> fdec) option"
  asOf :: "string option"

type_synonym table = "string \<rightharpoonup> item"

text \<open>The values \<^verbatim>\<open>_to_dec\<close> receives: a query-string value or a number of the table.\<close>

datatype pyval = Str string | Num fdec

definition py_str :: "pyval \<Rightarrow> string" where
  "py_str x = (case x of Str s \<Rightarrow> s | Num d \<Rightarrow> str_fdec d)"

definition to_dec :: "pyval \<Rightarrow> exn + decimal" where
  "to_dec x = Decimal_of_str (py_str x)"

text \<open>\<^verbatim>\<open>_round4\<close>, up to the conversion of the quantized Decimal to a float.\<close>

definition quantum :: fdec where
  "quantum = FDec False 1 (- 4)"

definition round4 :: "decimal \<Rightarrow> exn + decimal" where
  "round4 x = quantize x quantum"

definition get_rates_for_base :: "table \<Rightarrow> string \<Rightarrow> item option" where
  "get_rates_for_base tbl base = tbl (upper base)"

subsection \<open>\<^verbatim>\<open>compute_rate\<close>\<close>

datatype provenance = Identity | Direct | Cross | Inverse

record rate_info =
  rate :: decimal
  info_asOf :: "string option"
  provenance :: provenance
  baseUsed :: string

text \<open>
  \<open>lookup_rate it k\<close> is the value \<^verbatim>\<open>it["rates"][k]\<close> when the condition
  \<^verbatim>\<open>it and "rates" in it and k in it["rates"]\<close> holds.
\<close>

definition lookup_rate :: "item option \<Rightarrow> string \<Rightarrow> fdec option" where
  "lookup_rate it k =
     (case it of
        None \<Rightarrow> None
      | Some i \<Rightarrow> (case rates i of None \<Rightarrow> None | Some m \<Rightarrow> m k))"

definition item_asOf :: "item option \<Rightarrow> string option" where
  "item_asOf it = (case it of None \<Rightarrow> None | Some i \<Rightarrow> asOf i)"

text \<open>
  The three strategies of \<^verbatim>\<open>compute_rate\<close>, each on the item it has fetched. \<open>Inr None\<close>
  means that the strategy returns nothing and the function goes on; \<open>Inl\<close> is an exception.
\<close>

definition direct_rate :: "item option \<Rightarrow> string \<Rightarrow> string \<Rightarrow> exn + rate_info option" where
  "direct_rate item_from from_cur to_cur =
     (case lookup_rate item_from to_cur of
        None \<Rightarrow> Inr None
      | Some v \<Rightarrow>
          (case to_dec (Num v) of
             Inl e \<Rightarrow> Inl e
           | Inr r \<Rightarrow> Inr (Some \<lparr>rate = r, info_asOf = item_asOf item_from,
                                  provenance = Direct, baseUsed = from_cur\<rparr>)))"

definition cross_rate ::
  "string \<Rightarrow> item option \<Rightarrow> string \<Rightarrow> string \<Rightarrow> exn + rate_info option" where
  "cross_rate canonical_base item_base from_cur to_cur =
     (case lookup_rate item_base from_cur of
        None \<Rightarrow> Inr None
      | Some vf \<Rightarrow>
          (case lookup_rate item_base to_cur of
             None \<Rightarrow> Inr None
           | Some vt \<Rightarrow>
               (case to_dec (Num vt) of
                  Inl e \<Rightarrow> Inl e
                | Inr rate_to \<Rightarrow>
                    (case to_dec (Num vf) of
                       Inl e \<Rightarrow> Inl e
                     | Inr rate_from \<Rightarrow>
                         (case ne_zero rate_from of
                            Inl e \<Rightarrow> Inl e
                          | Inr False \<Rightarrow> Inr None
                          | Inr True \<Rightarrow>
                              (case truediv rate_to rate_from of
                                 Inl e \<Rightarrow> Inl e
                               | Inr r \<Rightarrow>
                                   Inr (Some \<lparr>rate = r, info_asOf = item_asOf item_base,
                                              provenance = Cross,
                                              baseUsed = canonical_base\<rparr>)))))))"

definition inverse_rate :: "item option \<Rightarrow> string \<Rightarrow> string \<Rightarrow> exn + rate_info option" where
  "inverse_rate item_to from_cur to_cur =
     (case lookup_rate item_to from_cur of
        None \<Rightarrow> Inr None
      | Some v \<Rightarrow>
          (case to_dec (Num v) of
             Inl e \<Rightarrow> Inl e
           | Inr r \<Rightarrow>
               (case ne_zero r of
                  Inl e \<Rightarrow> Inl e
                | Inr False \<Rightarrow> Inr None
                | Inr True \<Rightarrow>
                    (case truediv (Finite (FDec False 1 0)) r of
                       Inl e \<Rightarrow> Inl e
                     | Inr q \<Rightarrow>
                         Inr (Some \<lparr>rate = q, info_asOf = item_asOf item_to,
                                    provenance = Inverse, baseUsed = to_cur\<rparr>)))))"

text \<open>
  \<^verbatim>\<open>compute_rate\<close> with the configured \<^verbatim>\<open>CANONICAL_BASE\<close> as a parameter. The second
  component is the list of the keys passed to \<^verbatim>\<open>get_item\<close>, in order: the function's
  only accesses to the table. \<open>Inr None\<close> is the result \<^verbatim>\<open>None\<close>.
\<close>

definition compute_rate ::
  "string \<Rightarrow> table \<Rightarrow> string \<Rightarrow> string \<Rightarrow> (exn + rate_info option) \<times> string list" where
  "compute_rate canonical_base tbl from_raw to_raw =
     (let from_cur = upper from_raw;
          to_cur = upper to_raw;
          item_from = get_rates_for_base tbl from_cur;
          reads1 = [upper from_cur] in
      case direct_rate item_from from_cur to_cur of
        Inl e \<Rightarrow> (Inl e, reads1)
      | Inr (Some info) \<Rightarrow> (Inr (Some info), reads1)
      | Inr None \<Rightarrow>
          (let item_base = get_rates_for_base tbl canonical_base;
               reads2 = reads1 @ [upper canonical_base] in
           case cross_rate canonical_base item_base from_cur to_cur of
             Inl e \<Rightarrow> (Inl e, reads2)
           | Inr (Some info) \<Rightarrow> (Inr (Some info), reads2)
           | Inr None \<Rightarrow>
               (let item_to = get_rates_for_base tbl to_cur;
                    reads3 = reads2 @ [upper to_cur] in
                (inverse_rate item_to from_cur to_cur, reads3))))"

subsection \<open>\<^verbatim>\<open>lambda_handler\<close>\<close>

text \<open>
  The event carries the query-string parameters. A response is the status code and the
  body that \<^verbatim>\<open>_json\<close> serialises; the constant headers are left out. The numbers of
  a result body are the Decimals handed to \<^verbatim>\<open>float\<close> (the conversion to binary floating
  point is not modelled), and the literal \<^verbatim>\<open>1.0\<close> is the Decimal \<^verbatim>\<open>1.0\<close>.
\<close>

record event =
  queryStringParameters :: "(string \<rightharpoonup> string) option"

record result_body =
  b_from :: string
  b_to :: string
  b_amount :: decimal
  b_rate :: decimal
  b_result :: decimal
  b_asOf :: "string option"
  b_provenance :: provenance
  b_baseUsed :: "string option"

datatype body = ErrorBody string "string option" | ResultBody result_body

record response =
  statusCode :: nat
  body :: body

definition json :: "nat \<Rightarrow> body \<Rightarrow> response" where
  "json status b = \<lparr>statusCode = status, body = b\<rparr>"

text \<open>The four client-error responses (status 400), under the names of the specification.\<close>

definition missing_params :: response where
  "missing_params = json 400 (ErrorBody ''Required query params: from, to, amount'' None)"

definition bad_currency_code :: response where
  "bad_currency_code = json 400 (ErrorBody ''Currency codes must be 3 letters (ISO 4217)'' None)"

definition bad_amount :: response where
  "bad_amount = json 400 (ErrorBody ''Amount must be a valid number'' None)"

definition negative_amount :: response where
  "negative_amount = json 400 (ErrorBody ''Amount must be non-negative'' None)"

text \<open>
  The \<^verbatim>\<open>try\<close> block: \<open>Inl r\<close> is the response returned from inside it or from its
  handler \<^verbatim>\<open>except Exception\<close>, \<open>Inr amount\<close> the parsed amount with which the function
  goes on.
\<close>

definition parse_amount :: "string \<Rightarrow> response + decimal" where
  "parse_amount amount_raw =
     (case to_dec (Str amount_raw) of
        Inl e \<Rightarrow> Inl bad_amount
      | Inr amount \<Rightarrow>
          (case lt_zero amount of
             Inl e \<Rightarrow> Inl bad_amount
           | Inr True \<Rightarrow> Inl negative_amount
           | Inr False \<Rightarrow> Inr amount))"

definition not_found :: "string \<Rightarrow> string \<Rightarrow> string \<Rightarrow> response" where
  "not_found canonical_base from_cur to_cur =
     json 404 (ErrorBody
       (''Cannot compute '' @ from_cur @ ''->'' @ to_cur @ '' from cached rates only'')
       (Some (''Ensure Rates table has base='' @ [CHR 0x27] @ from_cur @ [CHR 0x27] @ '' with ''
              @ [CHR 0x27] @ to_cur @ [CHR 0x27] @ '' in rates OR base='' @ [CHR 0x27]
              @ canonical_base @ [CHR 0x27] @ '' with both '' @ [CHR 0x27] @ from_cur
              @ [CHR 0x27] @ '' and '' @ [CHR 0x27] @ to_cur @ [CHR 0x27] @ '' present.'')))"

text \<open>
  \<^verbatim>\<open>lambda_handler\<close>: the response, or the exception that leaves the handler, and the keys
  read from the table.
\<close>

definition lambda_handler ::
  "string \<Rightarrow> table \<Rightarrow> event \<Rightarrow> (exn + response) \<times> string list" where
  "lambda_handler canonical_base tbl ev =
     (let qs = (case queryStringParameters ev of None \<Rightarrow> Map.empty | Some q \<Rightarrow> q);
          from_cur = upper (case qs ''from'' of None \<Rightarrow> [] | Some s \<Rightarrow> s);
          to_cur = upper (case qs ''to'' of None \<Rightarrow> [] | Some s \<Rightarrow> s) in
      case qs ''amount'' of
        None \<Rightarrow> (Inr missing_params, [])
      | Some amount_raw \<Rightarrow>
          if from_cur = [] \<or> to_cur = [] then (Inr missing_params, [])
          else if length from_cur \<noteq> 3 \<or> length to_cur \<noteq> 3 then (Inr bad_currency_code, [])
          else
            (case parse_amount amount_raw of
               Inl r \<Rightarrow> (Inr r, [])
             | Inr amount \<Rightarrow>
                 if from_cur = to_cur then
                   (case round4 amount of
                      Inl e \<Rightarrow> (Inl e, [])
                    | Inr res \<Rightarrow>
                        (Inr (json 200 (ResultBody
                           \<lparr>b_from = from_cur, b_to = to_cur, b_amount = amount,
                            b_rate = Finite (FDec False 10 (- 1)), b_result = res,
                            b_asOf = None, b_provenance = Identity, b_baseUsed = None\<rparr>)), []))
                 else
                   (case compute_rate canonical_base tbl from_cur to_cur of
                      (Inl e, reads) \<Rightarrow> (Inl e, reads)
                    | (Inr None, reads) \<Rightarrow>
                        (Inr (not_found canonical_base from_cur to_cur), reads)
                    | (Inr (Some rate_info), reads) \<Rightarrow>
                        (case mul amount (rate rate_info) of
                           Inl e \<Rightarrow> (Inl e, reads)
                         | Inr result \<Rightarrow>
                             (case quantize (rate rate_info) quantum of
                                Inl e \<Rightarrow> (Inl e, reads)
                              | Inr shown_rate \<Rightarrow>
                                  (case round4 result of
                                     Inl e \<Rightarrow> (Inl e, reads)
                                   | Inr shown_result \<Rightarrow>
                                       (Inr (json 200 (ResultBody
                                          \<lparr>b_from = from_cur, b_to = to_cur, b_amount = amount,
                                           b_rate = shown_rate, b_result = shown_result,
                                           b_asOf = info_asOf rate_info,
                                           b_provenance = provenance rate_info,
                                           b_baseUsed = Some (baseUsed rate_info)\<rparr>)),
                                        reads)))))))"

section \<open>Auxiliary notions\<close>

text \<open>
  The output of \<^verbatim>\<open>Decimal.__str__\<close> without its sign, the exponent suffixes it writes, and
  the characters that \<^verbatim>\<open>strip\<close> and \<^verbatim>\<open>replace("_", "")\<close> leave alone.
\<close>

definition str_body :: "fdec \<Rightarrow> string" where
  "str_body d =
     (let ds = str_nat (coeff d);
          leftdigits = expo d + int (length ds);
          dotplace = (if expo d \<le> 0 \<and> - 6 < leftdigits then leftdigits else 1);
          intpart = (if dotplace \<le> 0 then ''0''
                     else if int (length ds) \<le> dotplace
                       then ds @ replicate (nat (dotplace - int (length ds))) (CHR ''0'')
                     else take (nat dotplace) ds);
          fracpart = (if dotplace \<le> 0 then ''.'' @ replicate (nat (- dotplace)) (CHR ''0'') @ ds
                      else if int (length ds) \<le> dotplace then []
                      else ''.'' @ drop (nat dotplace) ds);
          ex = (if leftdigits = dotplace then [] else ''E'' @ str_signed (leftdigits - dotplace))
      in intpart @ fracpart @ ex)"

definition exp_suffix :: "string \<Rightarrow> int \<Rightarrow> bool" where
  "exp_suffix ex k \<longleftrightarrow> (ex = [] \<and> k = 0) \<or> ex = CHR ''E'' # str_signed k"

definition plain_char :: "char \<Rightarrow> bool" where
  "plain_char c \<longleftrightarrow> \<not> is_space c \<and> c \<noteq> CHR ''_''"

text \<open>
  The request as the handler reads it: \<open>param ev k\<close> is \<^verbatim>\<open>qs.get(k)\<close> and \<open>code_param ev k\<close>
  is \<^verbatim>\<open>(qs.get(k) or "").upper()\<close>. \<open>converts ev\<close> holds when the request passes validation
  and is not the identity conversion, that is, when the handler calls \<^verbatim>\<open>compute_rate\<close>.
\<close>

definition param :: "event \<Rightarrow> string \<Rightarrow> string option" where
  "param ev k = (case queryStringParameters ev of None \<Rightarrow> None | Some q \<Rightarrow> q k)"

definition code_param :: "event \<Rightarrow> string \<Rightarrow> string" where
  "code_param ev k = upper (case param ev k of None \<Rightarrow> [] | Some s \<Rightarrow> s)"

definition converts :: "event \<Rightarrow> bool" where
  "converts ev \<longleftrightarrow>
     (\<exists>a amount. param ev ''amount'' = Some a \<and> parse_amount a = Inr amount)
     \<and> length (code_param ev ''from'') = 3 \<and> length (code_param ev ''to'') = 3
     \<and> code_param ev ''from'' \<noteq> code_param ev ''to''"

text \<open>Sample data: events, items and tables.\<close>

definition mk_event :: "(string \<times> string) list \<Rightarrow> event" where
  "mk_event ps = \<lparr>queryStringParameters = Some (map_of ps)\<rparr>"

definition request :: "string \<Rightarrow> string \<Rightarrow> string \<Rightarrow> event" where
  "request f t a = mk_event [(''from'', f), (''to'', t), (''amount'', a)]"

definition mk_item :: "(string \<times> fdec) list \<Rightarrow> string \<Rightarrow> item" where
  "mk_item rs stamp = \<lparr>rates = Some (map_of rs), asOf = Some stamp\<rparr>"

definition tbl_direct :: table where
  "tbl_direct = map_of [(''USD'', mk_item [(''EUR'', FDec False 9200 (- 4))] ''2024-05-01T00:00:00Z'')]"

definition tbl_cross :: table where
  "tbl_cross =
     map_of [(''USD'', mk_item [(''EUR'', FDec False 92 (- 2)), (''GBP'', FDec False 79 (- 2))]
                ''2024-05-01T00:00:00Z'')]"

definition tbl_inverse :: table where
  "tbl_inverse = map_of [(''GBP'', mk_item [(''EUR'', FDec False 3 0)] ''2024-05-02T00:00:00Z'')]"

definition tbl_all :: table where
  "tbl_all =
     map_of [(''EUR'', mk_item [(''GBP'', FDec False 86 (- 2))] ''2024-05-03T00:00:00Z''),
             (''USD'', mk_item [(''EUR'', FDec False 92 (- 2)), (''GBP'', FDec False 79 (- 2))]
                ''2024-05-01T00:00:00Z''),
             (''GBP'', mk_item [(''EUR'', FDec False 116 (- 2))] ''2024-05-02T00:00:00Z'')]"

definition tbl_zero :: table where
  "tbl_zero = map_of [(''USD'', mk_item [(''EUR'', FDec False 0 0)] ''2024-05-01T00:00:00Z'')]"

section \<open>Decimals survive \<^verbatim>\<open>Decimal(str(x))\<close>\<close>

lemma lt10_cases: "n < 10 \<Longrightarrow> n \<in> {0, 1, 2, 3, 4, 5, 6, 7, 8, 9::nat}"
  by auto

lemma digit_char_props:
  assumes "n < 10"
  shows "is_digit (digit_char n)" "digit_val (digit_char n) = n"
    "\<not> is_space (digit_char n)" "digit_char n \<noteq> CHR ''_''"
    "digit_char n \<noteq> CHR ''-''" "digit_char n \<noteq> CHR ''+''" "digit_char n \<noteq> CHR ''.''"
    "digit_char n \<noteq> CHR ''E''" "digit_char n \<noteq> CHR ''e''"
  using lt10_cases [OF assms]
  by (auto simp: digit_char_def is_digit_def digit_val_def is_space_def)

lemma is_digit_props:
  assumes "is_digit c"
  shows "\<not> is_space c" "c \<noteq> CHR ''_''" "c \<noteq> CHR ''-''" "c \<noteq> CHR ''+''" "c \<noteq> CHR ''.''"
    "c \<noteq> CHR ''E''" "c \<noteq> CHR ''e''"
  using assms by (auto simp: is_digit_def is_space_def)

lemma str_nat_digits: "list_all is_digit (str_nat n)"
  by (induction n rule: str_nat.induct) (subst str_nat.simps, simp add: digit_char_props)

lemma str_nat_nonempty: "str_nat n \<noteq> []"
  by (subst str_nat.simps) simp

lemma length_str_nat: "length (str_nat n) = ndigits n"
  by (induction n rule: str_nat.induct) (subst str_nat.simps, subst ndigits.simps, simp)

lemma int_of_digits_snoc: "int_of_digits (xs @ [c]) = 10 * int_of_digits xs + digit_val c"
  by (simp add: int_of_digits_def)

lemma int_of_digits_str_nat: "int_of_digits (str_nat n) = n"
proof (induction n rule: str_nat.induct)
  case (1 n)
  show ?case
  proof (cases "n < 10")
    case True
    then show ?thesis
      by (subst str_nat.simps) (simp add: int_of_digits_def digit_char_props)
  next
    case False
    then show ?thesis
      using 1 by (subst str_nat.simps) (simp add: int_of_digits_snoc digit_char_props)
  qed
qed

lemma int_of_digits_append:
  "int_of_digits (xs @ ys) = int_of_digits xs * 10 ^ length ys + int_of_digits ys"
  by (induction ys rule: rev_induct)
     (simp_all add: int_of_digits_snoc flip: append_assoc, simp add: int_of_digits_def)

lemma int_of_digits_zeros: "int_of_digits (replicate k (CHR ''0'') @ xs) = int_of_digits xs"
proof -
  have "int_of_digits (replicate k (CHR ''0'')) = 0"
    by (induction k) (simp_all add: int_of_digits_def digit_val_def replicate_append_same
        flip: replicate_append_same)
  then show ?thesis by (simp add: int_of_digits_append)
qed

lemma span_digits:
  assumes "list_all is_digit xs" "ys = [] \<or> \<not> is_digit (hd ys)"
  shows "takeWhile is_digit (xs @ ys) = xs" "dropWhile is_digit (xs @ ys) = ys"
proof -
  have a: "\<And>x. x \<in> set xs \<Longrightarrow> is_digit x" using assms(1) by (simp add: list_all_iff)
  have t: "takeWhile is_digit ys = []" using assms(2) by (cases ys) auto
  have d: "dropWhile is_digit ys = ys" using assms(2) by (cases ys) auto
  show "takeWhile is_digit (xs @ ys) = xs" using a t by (simp add: takeWhile_append2)
  show "dropWhile is_digit (xs @ ys) = ys" using a d by (simp add: dropWhile_append2)
qed

lemma parse_exp_signed: "parse_exp (CHR ''E'' # str_signed k) = Some k"
  using str_nat_digits [of "nat k"] str_nat_digits [of "nat (- k)"]
    str_nat_nonempty [of "nat k"] str_nat_nonempty [of "nat (- k)"]
  by (auto simp: parse_exp_def str_signed_def split_sign_def int_of_digits_str_nat)

lemma exp_suffix_parse: "exp_suffix ex k \<Longrightarrow> parse_exp ex = Some k"
  unfolding exp_suffix_def using parse_exp_signed [of k] by (auto simp: parse_exp_def)

lemma exp_suffix_hd: "exp_suffix ex k \<Longrightarrow> ex = [] \<or> \<not> is_digit (hd ex) \<and> hd ex \<noteq> CHR ''.''"
  by (auto simp: exp_suffix_def is_digit_def)

lemma parse_number_frac:
  assumes "list_all is_digit ip" "list_all is_digit fp" "ip \<noteq> []" "exp_suffix ex k"
  shows "parse_number (ip @ CHR ''.'' # fp @ ex) = Some (int_of_digits (ip @ fp), k - int (length fp))"
proof -
  have 1: "takeWhile is_digit (ip @ CHR ''.'' # fp @ ex) = ip"
    "dropWhile is_digit (ip @ CHR ''.'' # fp @ ex) = CHR ''.'' # fp @ ex"
    using span_digits [OF assms(1), of "CHR ''.'' # fp @ ex"] by (simp_all add: is_digit_def)
  have 2: "takeWhile is_digit (fp @ ex) = fp" "dropWhile is_digit (fp @ ex) = ex"
    using span_digits [OF assms(2), of ex] exp_suffix_hd [OF assms(4)] by auto
  show ?thesis
    unfolding parse_number_def Let_def 1
    using assms(3) by (simp add: 2 exp_suffix_parse [OF assms(4)])
qed

lemma parse_number_int:
  assumes "list_all is_digit ip" "ip \<noteq> []" "exp_suffix ex k"
  shows "parse_number (ip @ ex) = Some (int_of_digits ip, k)"
proof -
  have 1: "takeWhile is_digit (ip @ ex) = ip" "dropWhile is_digit (ip @ ex) = ex"
    using span_digits [OF assms(1), of ex] exp_suffix_hd [OF assms(3)] by auto
  show ?thesis
    unfolding parse_number_def Let_def 1
    using assms(2) exp_suffix_hd [OF assms(3)]
    by (auto simp add: exp_suffix_parse [OF assms(3)])
qed

lemma str_fdec_body: "str_fdec d = (if neg d then ''-'' else []) @ str_body d"
  by (simp add: str_fdec_def str_body_def Let_def)

lemma str_body_shape:
  "\<exists>ip fp ex k. list_all is_digit ip \<and> ip \<noteq> [] \<and> list_all is_digit fp \<and> exp_suffix ex k
     \<and> (str_body d = ip @ ex \<and> int_of_digits ip = coeff d \<and> k = expo d
        \<or> str_body d = ip @ CHR ''.'' # fp @ ex \<and> int_of_digits (ip @ fp) = coeff d
            \<and> k - int (length fp) = expo d)"
proof -
  let ?ds = "str_nat (coeff d)"
  let ?n = "int (length ?ds)"
  let ?dp = "if expo d \<le> 0 \<and> - 6 < expo d + ?n then expo d + ?n else 1"
  let ?ex = "if expo d + ?n = ?dp then [] else CHR ''E'' # str_signed (expo d + ?n - ?dp)"
  have ds: "list_all is_digit ?ds" "?ds \<noteq> []" "int_of_digits ?ds = coeff d"
    by (simp_all add: str_nat_digits str_nat_nonempty int_of_digits_str_nat)
  have n: "0 < ?n" using ds(2) by simp
  have ex: "exp_suffix ?ex (expo d + ?n - ?dp)"
    unfolding exp_suffix_def by simp
  have zeros: "list_all is_digit (replicate m (CHR ''0''))" for m
    by (simp add: list_all_iff is_digit_def)
  consider (a) "?dp \<le> 0" | (b) "0 < ?dp" "?n \<le> ?dp" | (c) "0 < ?dp" "?dp < ?n" by linarith
  then show ?thesis
  proof cases
    case a
    then have body: "str_body d = ''0'' @ CHR ''.'' # (replicate (nat (- ?dp)) (CHR ''0'') @ ?ds) @ ?ex"
      unfolding str_body_def Let_def by simp
    have len: "expo d + ?n - ?dp - int (length (replicate (nat (- ?dp)) (CHR ''0'') @ ?ds)) = expo d"
      using a by (simp split: if_splits)
    have val: "int_of_digits (''0'' @ replicate (nat (- ?dp)) (CHR ''0'') @ ?ds) = coeff d"
      using int_of_digits_zeros [of "Suc (nat (- ?dp))" ?ds] ds(3) by simp
    have "list_all is_digit ''0''" by (simp add: is_digit_def)
    moreover have "list_all is_digit (replicate (nat (- ?dp)) (CHR ''0'') @ ?ds)"
      using zeros ds(1) by simp
    moreover have "''0'' \<noteq> []" by simp
    ultimately show ?thesis using ex body len val by blast
  next
    case b
    have l1: "length ?ds = Suc 0" if "\<not> (expo d \<le> 0 \<and> - 6 < expo d + ?n)"
      using that b ds(2) by (cases ?ds) (auto split: if_splits)
    have e0: "expo d = 0" if "expo d \<le> 0 \<and> - 6 < expo d + ?n"
      using that b by (auto split: if_splits)
    have body: "str_body d = ?ds @ ?ex"
    proof (cases "expo d \<le> 0 \<and> - 6 < expo d + ?n")
      case True
      then show ?thesis unfolding str_body_def Let_def using e0 ds(2) by simp
    next
      case False
      then show ?thesis unfolding str_body_def Let_def using l1 by auto
    qed
    have "expo d + ?n - ?dp = expo d"
      using l1 e0 by (cases "expo d \<le> 0 \<and> - 6 < expo d + ?n") simp_all
    then show ?thesis using ex body ds by metis
  next
    case c
    then have body: "str_body d = take (nat ?dp) ?ds @ CHR ''.'' # drop (nat ?dp) ?ds @ ?ex"
      unfolding str_body_def Let_def by (simp split: if_splits)
    have 1: "list_all is_digit (take (nat ?dp) ?ds)" "list_all is_digit (drop (nat ?dp) ?ds)"
      using ds(1) by (auto simp: list_all_iff dest: in_set_takeD in_set_dropD)
    have 2: "take (nat ?dp) ?ds \<noteq> []" using c ds(2) by (auto split: if_splits)
    have 3: "expo d + ?n - ?dp - int (length (drop (nat ?dp) ?ds)) = expo d"
      using c by (simp split: if_splits)
    have 4: "int_of_digits (take (nat ?dp) ?ds @ drop (nat ?dp) ?ds) = coeff d"
      using ds(3) by simp
    show ?thesis using ex body 1 2 3 4 by blast
  qed
qed

lemma parse_str_body: "parse_number (str_body d) = Some (coeff d, expo d)"
  using str_body_shape [of d] parse_number_frac parse_number_int by force

lemma plain_digits: "list_all is_digit xs \<Longrightarrow> list_all plain_char xs"
  by (auto simp: list_all_iff plain_char_def is_digit_props)

lemma plain_exp_suffix: "exp_suffix ex k \<Longrightarrow> list_all plain_char ex"
  using plain_digits [OF str_nat_digits]
  by (auto simp: exp_suffix_def str_signed_def) (simp_all add: plain_char_def is_space_def)

lemma str_body_plain: "list_all plain_char (str_body d)"
proof -
  have dot: "plain_char (CHR ''.'')" by (simp add: plain_char_def is_space_def)
  show ?thesis
    using str_body_shape [of d] dot by (auto dest!: plain_digits plain_exp_suffix)
qed

lemma str_body_hd: "str_body d \<noteq> [] \<and> is_digit (hd (str_body d))"
  using str_body_shape [of d] by (auto simp: list_all_iff neq_Nil_conv)

lemma dropWhile_hd: "s = [] \<or> \<not> P (hd s) \<Longrightarrow> dropWhile P s = s"
  by (cases s) auto

lemma strip_plain:
  assumes "list_all plain_char s"
  shows "strip s = s"
proof (cases "s = []")
  case True
  then show ?thesis by (simp add: strip_def)
next
  case False
  then have "hd s \<in> set s" "last s \<in> set s" by simp_all
  then have "\<not> is_space (hd s)" "\<not> is_space (last s)"
    using assms by (auto simp: list_all_iff plain_char_def)
  then have "dropWhile is_space s = s" "dropWhile is_space (rev s) = rev s"
    using False by (simp_all add: dropWhile_hd hd_rev)
  then show ?thesis by (simp add: strip_def)
qed

lemma filter_plain: "list_all plain_char s \<Longrightarrow> filter (\<lambda>c. c \<noteq> CHR ''_'') s = s"
  by (induction s) (auto simp: plain_char_def)

lemma str_fdec_plain: "list_all plain_char (str_fdec d)"
  using str_body_plain [of d] by (simp add: str_fdec_body plain_char_def is_space_def)

lemma split_sign_str_fdec: "split_sign (str_fdec d) = (neg d, str_body d)"
  using str_body_hd [of d]
  by (cases "str_body d") (auto simp: str_fdec_body split_sign_def is_digit_props)

lemma Decimal_of_str_str_fdec: "Decimal_of_str (str_fdec d) = Inr (Finite d)"
  by (simp add: Decimal_of_str_def strip_plain filter_plain str_fdec_plain
      split_sign_str_fdec parse_str_body)

lemma to_dec_Num: "to_dec (Num d) = Inr (Finite d)"
  by (simp add: to_dec_def py_str_def Decimal_of_str_str_fdec)

section \<open>The handler, case by case\<close>

lemma upper_char_idem: "upper_char (upper_char c) = upper_char c"
  by (simp add: upper_char_def)

lemma upper_idem: "upper (upper s) = upper s"
  by (simp add: upper_def upper_char_idem)


lemma length_upper: "length (upper s) = length s"
  by (simp add: upper_def)

lemma direct_rate_hit:
  "lookup_rate it t = Some v \<Longrightarrow>
   direct_rate it f t = Inr (Some \<lparr>rate = Finite v, info_asOf = item_asOf it,
                                  provenance = Direct, baseUsed = f\<rparr>)"
  by (simp add: direct_rate_def to_dec_Num)

lemma direct_rate_miss: "lookup_rate it t = None \<Longrightarrow> direct_rate it f t = Inr None"
  by (simp add: direct_rate_def)

lemma handler_unfold:
  "lambda_handler cb tbl ev =
     (case param ev ''amount'' of
        None \<Rightarrow> (Inr missing_params, [])
      | Some amount_raw \<Rightarrow>
          if code_param ev ''from'' = [] \<or> code_param ev ''to'' = [] then (Inr missing_params, [])
          else if length (code_param ev ''from'') \<noteq> 3 \<or> length (code_param ev ''to'') \<noteq> 3
            then (Inr bad_currency_code, [])
          else
            (case parse_amount amount_raw of
               Inl r \<Rightarrow> (Inr r, [])
             | Inr amount \<Rightarrow>
                 if code_param ev ''from'' = code_param ev ''to'' then
                   (case round4 amount of
                      Inl e \<Rightarrow> (Inl e, [])
                    | Inr res \<Rightarrow>
                        (Inr (json 200 (ResultBody
                           \<lparr>b_from = code_param ev ''from'', b_to = code_param ev ''to'',
                            b_amount = amount,
                            b_rate = Finite (FDec False 10 (- 1)), b_result = res,
                            b_asOf = None, b_provenance = Identity, b_baseUsed = None\<rparr>)), []))
                 else
                   (case compute_rate cb tbl (code_param ev ''from'') (code_param ev ''to'') of
                      (Inl e, reads) \<Rightarrow> (Inl e, reads)
                    | (Inr None, reads) \<Rightarrow>
                        (Inr (not_found cb (code_param ev ''from'') (code_param ev ''to'')), reads)
                    | (Inr (Some rate_info), reads) \<Rightarrow>
                        (case mul amount (rate rate_info) of
                           Inl e \<Rightarrow> (Inl e, reads)
                         | Inr result \<Rightarrow>
                             (case quantize (rate rate_info) quantum of
                                Inl e \<Rightarrow> (Inl e, reads)
                              | Inr shown_rate \<Rightarrow>
                                  (case round4 result of
                                     Inl e \<Rightarrow> (Inl e, reads)
                                   | Inr shown_result \<Rightarrow>
                                       (Inr (json 200 (ResultBody
                                          \<lparr>b_from = code_param ev ''from'',
                                           b_to = code_param ev ''to'', b_amount = amount,
                                           b_rate = shown_rate, b_result = shown_result,
                                           b_asOf = info_asOf rate_info,
                                           b_provenance = provenance rate_info,
                                           b_baseUsed = Some (baseUsed rate_info)\<rparr>)),
                                        reads)))))))"
proof -
  have q: "(case queryStringParameters ev of None \<Rightarrow> Map.empty | Some q \<Rightarrow> q) = param ev"
    by (rule ext) (simp add: param_def split: option.splits)
  show ?thesis
    unfolding lambda_handler_def Let_def q code_param_def by (rule refl)
qed

lemma handler_missing:
  "code_param ev ''from'' = [] \<or> code_param ev ''to'' = [] \<or> param ev ''amount'' = None \<Longrightarrow>
   lambda_handler cb tbl ev = (Inr missing_params, [])"
  by (auto simp add: handler_unfold split: option.splits)

lemma handler_bad_code:
  "code_param ev ''from'' \<noteq> [] \<Longrightarrow> code_param ev ''to'' \<noteq> [] \<Longrightarrow> param ev ''amount'' = Some a \<Longrightarrow>
   length (code_param ev ''from'') \<noteq> 3 \<or> length (code_param ev ''to'') \<noteq> 3 \<Longrightarrow>
   lambda_handler cb tbl ev = (Inr bad_currency_code, [])"
  by (auto simp: handler_unfold)

lemma handler_bad_amount:
  "length (code_param ev ''from'') = 3 \<Longrightarrow> length (code_param ev ''to'') = 3 \<Longrightarrow>
   param ev ''amount'' = Some a \<Longrightarrow> parse_amount a = Inl r \<Longrightarrow>
   lambda_handler cb tbl ev = (Inr r, [])"
  by (auto simp: handler_unfold)

lemma handler_identity:
  "length (code_param ev ''from'') = 3 \<Longrightarrow> code_param ev ''to'' = code_param ev ''from'' \<Longrightarrow>
   param ev ''amount'' = Some a \<Longrightarrow> parse_amount a = Inr amount \<Longrightarrow>
   lambda_handler cb tbl ev =
     (case round4 amount of
        Inl e \<Rightarrow> (Inl e, [])
      | Inr res \<Rightarrow>
          (Inr (json 200 (ResultBody
             \<lparr>b_from = code_param ev ''from'', b_to = code_param ev ''from'', b_amount = amount,
              b_rate = Finite (FDec False 10 (- 1)), b_result = res,
              b_asOf = None, b_provenance = Identity, b_baseUsed = None\<rparr>)), []))"
  by (auto simp: handler_unfold split: sum.splits)

lemma handler_convert:
  "length (code_param ev ''from'') = 3 \<Longrightarrow> length (code_param ev ''to'') = 3 \<Longrightarrow>
   code_param ev ''from'' \<noteq> code_param ev ''to'' \<Longrightarrow>
   param ev ''amount'' = Some a \<Longrightarrow> parse_amount a = Inr amount \<Longrightarrow>
   lambda_handler cb tbl ev =
     (case compute_rate cb tbl (code_param ev ''from'') (code_param ev ''to'') of
        (Inl e, reads) \<Rightarrow> (Inl e, reads)
      | (Inr None, reads) \<Rightarrow>
          (Inr (not_found cb (code_param ev ''from'') (code_param ev ''to'')), reads)
      | (Inr (Some rate_info), reads) \<Rightarrow>
          (case mul amount (rate rate_info) of
             Inl e \<Rightarrow> (Inl e, reads)
           | Inr result \<Rightarrow>
               (case quantize (rate rate_info) quantum of
                  Inl e \<Rightarrow> (Inl e, reads)
                | Inr shown_rate \<Rightarrow>
                    (case round4 result of
                       Inl e \<Rightarrow> (Inl e, reads)
                     | Inr shown_result \<Rightarrow>
                         (Inr (json 200 (ResultBody
                            \<lparr>b_from = code_param ev ''from'', b_to = code_param ev ''to'',
                             b_amount = amount,
                             b_rate = shown_rate, b_result = shown_result,
                             b_asOf = info_asOf rate_info,
                             b_provenance = provenance rate_info,
                             b_baseUsed = Some (baseUsed rate_info)\<rparr>)),
                          reads)))))"
  by (auto simp: handler_unfold)

lemma compute_rate_reads:
  "snd (compute_rate cb tbl f t) \<in>
     {[upper f], [upper f, upper cb], [upper f, upper cb, upper t]}"
  by (simp add: compute_rate_def Let_def upper_idem split: sum.splits option.splits)

lemma compute_rate_local:
  assumes "\<forall>k \<in> set (snd (compute_rate cb tbl f t)). tbl' k = tbl k"
  shows "compute_rate cb tbl' f t = compute_rate cb tbl f t"
proof -
  have 1: "get_rates_for_base tbl' (upper f) = get_rates_for_base tbl (upper f)"
    using assms
    by (simp add: compute_rate_def Let_def get_rates_for_base_def upper_idem
        split: sum.splits option.splits)
  show ?thesis
  proof (cases "direct_rate (get_rates_for_base tbl (upper f)) (upper f) (upper t)")
    case (Inl e)
    then show ?thesis by (simp add: compute_rate_def Let_def 1)
  next
    case (Inr r)
    show ?thesis
    proof (cases r)
      case (Some info)
      then show ?thesis using Inr by (simp add: compute_rate_def Let_def 1)
    next
      case None
      then have 2: "get_rates_for_base tbl' cb = get_rates_for_base tbl cb"
        using assms Inr
        by (simp add: compute_rate_def Let_def get_rates_for_base_def
            split: sum.splits option.splits)
      show ?thesis
      proof (cases "cross_rate cb (get_rates_for_base tbl cb) (upper f) (upper t)")
        case (Inl e)
        then show ?thesis using None Inr by (simp add: compute_rate_def Let_def 1 2)
      next
        case c: (Inr r2)
        show ?thesis
        proof (cases r2)
          case (Some info)
          then show ?thesis using None Inr c by (simp add: compute_rate_def Let_def 1 2)
        next
          case n2: None
          then have 3: "get_rates_for_base tbl' (upper t) = get_rates_for_base tbl (upper t)"
            using assms Inr None c
            by (simp add: compute_rate_def Let_def get_rates_for_base_def upper_idem)
          show ?thesis using None Inr c n2 by (simp add: compute_rate_def Let_def 1 2 3)
        qed
      qed
    qed
  qed
qed

lemma handler_not_converts:
  assumes "\<not> converts ev"
  shows "lambda_handler cb tbl ev = lambda_handler cb' tbl' ev \<and> snd (lambda_handler cb tbl ev) = []"
proof (cases "param ev ''amount''")
  case None
  then show ?thesis by (simp add: handler_missing)
next
  case (Some a)
  let ?f = "code_param ev ''from''" and ?t = "code_param ev ''to''"
  show ?thesis
  proof (cases "?f = [] \<or> ?t = []")
    case True
    then show ?thesis using handler_missing [of ev] by auto
  next
    case nonempty: False
    show ?thesis
    proof (cases "length ?f \<noteq> 3 \<or> length ?t \<noteq> 3")
      case True
      then show ?thesis using nonempty Some handler_bad_code [of ev a] by simp
    next
      case len: False
      show ?thesis
      proof (cases "parse_amount a")
        case (Inl r)
        then show ?thesis using len Some handler_bad_amount [of ev a r] by simp
      next
        case (Inr amount)
        then have "?t = ?f"
          using assms Some len unfolding converts_def by auto
        then show ?thesis
          using len Some Inr handler_identity [of ev a amount]
          by (simp split: sum.splits)
      qed
    qed
  qed
qed

lemma handler_converts_reads:
  assumes "converts ev"
  shows "snd (lambda_handler cb tbl ev) =
     snd (compute_rate cb tbl (code_param ev ''from'') (code_param ev ''to''))"
proof -
  obtain a amount where "param ev ''amount'' = Some a" "parse_amount a = Inr amount"
    "length (code_param ev ''from'') = 3" "length (code_param ev ''to'') = 3"
    "code_param ev ''from'' \<noteq> code_param ev ''to''"
    using assms unfolding converts_def by blast
  then show ?thesis
    by (simp add: handler_convert split: sum.splits prod.splits option.splits)
qed

lemma handler_local:
  assumes "\<forall>k \<in> set (snd (lambda_handler cb tbl ev)). tbl' k = tbl k"
  shows "lambda_handler cb tbl' ev = lambda_handler cb tbl ev"
proof (cases "converts ev")
  case False
  then show ?thesis using handler_not_converts [of ev cb tbl' cb tbl] by simp
next
  case True
  have "\<forall>k \<in> set (snd (compute_rate cb tbl (code_param ev ''from'') (code_param ev ''to''))).
          tbl' k = tbl k"
    using assms unfolding handler_converts_reads [OF True] .
  then have eq: "compute_rate cb tbl' (code_param ev ''from'') (code_param ev ''to'') =
             compute_rate cb tbl (code_param ev ''from'') (code_param ev ''to'')"
    by (rule compute_rate_local)
  show ?thesis unfolding handler_unfold eq by (rule refl)
qed

lemma handler_reads:
  "snd (lambda_handler cb tbl ev) \<in>
     {[], [code_param ev ''from''], [code_param ev ''from'', upper cb],
      [code_param ev ''from'', upper cb, code_param ev ''to'']}"
proof (cases "converts ev")
  case False
  then show ?thesis using handler_not_converts [of ev cb tbl cb tbl] by simp
next
  case True
  have u: "upper (code_param ev k) = code_param ev k" for k
    by (simp add: code_param_def upper_idem)
  show ?thesis
    using compute_rate_reads [of cb tbl "code_param ev ''from''" "code_param ev ''to''"]
    unfolding handler_converts_reads [OF True] u by simp
qed

lemma cross_rate_miss:
  assumes "lookup_rate it f = None \<or> lookup_rate it t = None
           \<or> (\<exists>v. lookup_rate it f = Some v \<and> coeff v = 0)"
  shows "cross_rate cb it f t = Inr None"
  using assms by (auto simp: cross_rate_def to_dec_Num ne_zero_def split: option.splits)

lemma inverse_rate_miss:
  assumes "lookup_rate it f = None \<or> (\<exists>v. lookup_rate it f = Some v \<and> coeff v = 0)"
  shows "inverse_rate it f t = Inr None"
  using assms by (auto simp: inverse_rate_def to_dec_Num ne_zero_def split: option.splits)

lemma compute_rate_none:
  assumes "lookup_rate (tbl (upper f)) (upper t) = None"
    and "lookup_rate (tbl (upper cb)) (upper f) = None
         \<or> lookup_rate (tbl (upper cb)) (upper t) = None
         \<or> (\<exists>v. lookup_rate (tbl (upper cb)) (upper f) = Some v \<and> coeff v = 0)"
    and "lookup_rate (tbl (upper t)) (upper f) = None
         \<or> (\<exists>v. lookup_rate (tbl (upper t)) (upper f) = Some v \<and> coeff v = 0)"
  shows "compute_rate cb tbl f t = (Inr None, [upper f, upper cb, upper t])"
  using assms(1) cross_rate_miss [OF assms(2), of cb] inverse_rate_miss [OF assms(3), of "upper t"]
  by (simp add: compute_rate_def Let_def get_rates_for_base_def upper_idem direct_rate_miss)


section \<open>Sample evaluations and the strategies of \<^verbatim>\<open>compute_rate\<close>\<close>

lemma upper_codes [simp]:
  "upper ''USD'' = ''USD''" "upper ''EUR'' = ''EUR''" "upper ''GBP'' = ''GBP''"
  "upper ''usd'' = ''USD''" "upper ''eur'' = ''EUR''" "upper ''gbp'' = ''GBP''"
  by (simp_all add: upper_def upper_char_def)

lemma param_request [simp]:
  "param (request f t a) ''from'' = Some f" "param (request f t a) ''to'' = Some t"
  "param (request f t a) ''amount'' = Some a"
  by (simp_all add: param_def request_def mk_event_def)

lemma parse_amount_samples:
  "parse_amount ''1'' = Inr (Finite (FDec False 1 0))"
  "parse_amount ''2'' = Inr (Finite (FDec False 2 0))"
  "parse_amount ''10'' = Inr (Finite (FDec False 10 0))"
  "parse_amount ''100'' = Inr (Finite (FDec False 100 0))"
  by (simp_all add: parse_amount_def to_dec_def py_str_def Decimal_of_str_def strip_def
      is_space_def split_sign_def parse_number_def is_digit_def parse_exp_def int_of_digits_def
      digit_val_def parse_special_def lower_char_def lt_zero_def)

lemma compute_rate_direct:
  assumes "upper from_cur = from_cur" and "upper to_cur = to_cur"
    and "tbl from_cur = Some it" and "rates it = Some m" and "m to_cur = Some v"
  shows "compute_rate canonical_base tbl from_cur to_cur =
           (Inr (Some \<lparr>rate = Finite v, info_asOf = asOf it, provenance = Direct,
                       baseUsed = from_cur\<rparr>), [from_cur])"
proof -
  have "lookup_rate (get_rates_for_base tbl from_cur) to_cur = Some v"
    using assms by (simp add: lookup_rate_def get_rates_for_base_def)
  moreover have "item_asOf (get_rates_for_base tbl from_cur) = asOf it"
    using assms by (simp add: item_asOf_def get_rates_for_base_def)
  ultimately show ?thesis
    using assms(1,2) by (simp add: compute_rate_def Let_def direct_rate_hit)
qed

lemma handler_unavailable:
  assumes "param ev ''from'' = Some f" and "param ev ''to'' = Some t"
    and "param ev ''amount'' = Some a"
    and "length f = 3" and "length t = 3" and "upper f \<noteq> upper t"
    and "parse_amount a = Inr amount"
    and "lookup_rate (tbl (upper f)) (upper t) = None"
    and "lookup_rate (tbl (upper canonical_base)) (upper f) = None
         \<or> lookup_rate (tbl (upper canonical_base)) (upper t) = None
         \<or> (\<exists>v. lookup_rate (tbl (upper canonical_base)) (upper f) = Some v \<and> coeff v = 0)"
    and "lookup_rate (tbl (upper t)) (upper f) = None
         \<or> (\<exists>v. lookup_rate (tbl (upper t)) (upper f) = Some v \<and> coeff v = 0)"
  shows "lambda_handler canonical_base tbl ev =
           (Inr (not_found canonical_base (upper f) (upper t)),
            [upper f, upper canonical_base, upper t])
         \<and> statusCode (not_found canonical_base (upper f) (upper t)) = 404
         \<and> (\<exists>msg hint. body (not_found canonical_base (upper f) (upper t)) =
               ErrorBody msg (Some hint))"
proof -
  have c: "code_param ev ''from'' = upper f" "code_param ev ''to'' = upper t"
    using assms(1,2) by (simp_all add: code_param_def)
  have "compute_rate canonical_base tbl (upper f) (upper t) =
          (Inr None, [upper f, upper canonical_base, upper t])"
    using compute_rate_none [of tbl "upper f" "upper t" canonical_base] assms(8,9,10)
    by (simp add: upper_idem)
  then have "lambda_handler canonical_base tbl ev =
           (Inr (not_found canonical_base (upper f) (upper t)),
            [upper f, upper canonical_base, upper t])"
    using handler_convert [of ev a amount canonical_base tbl] assms(3-7) c
    by (simp add: length_upper)
  then show ?thesis by (simp add: not_found_def json_def)
qed

lemma parse_amount_special:
  "parse_amount ''1e24'' = Inr (Finite (FDec False 1 24))"
  "parse_amount ''Infinity'' = Inr (Infinity False)"
  "parse_amount ''NaN'' = Inl bad_amount"
  by (simp_all add: parse_amount_def to_dec_def py_str_def Decimal_of_str_def strip_def
      is_space_def split_sign_def parse_number_def is_digit_def parse_exp_def int_of_digits_def
      digit_val_def parse_special_def lower_char_def lt_zero_def)

lemma converts_request:
  "length f = 3 \<Longrightarrow> length t = 3 \<Longrightarrow> upper f \<noteq> upper t \<Longrightarrow> parse_amount a = Inr amount \<Longrightarrow>
   converts (request f t a)"
  by (simp add: converts_def code_param_def length_upper)

lemma ndigits_small [simp]: "ndigits 0 = 1" "ndigits 1 = 1" "ndigits (Suc 0) = 1"
  by (simp_all add: ndigits.simps)

section \<open>The claims of the specification\<close>

text \<open>
  Claim C1 (direct precedence). For every table and every pair of normalized codes, if the
  item stored under \<open>from_cur\<close> has a rate mapping that contains \<open>to_cur\<close>, then
  \<^verbatim>\<open>compute_rate\<close> returns that stored number unchanged, with provenance \<open>Direct\<close>, base
  used \<open>from_cur\<close> and the \<^verbatim>\<open>asOf\<close> of that item, after a single read of the table. Nothing
  is assumed about the rest of the table, so cross and inverse data may exist as well.
\<close>

theorem direct_precedence:
  assumes "upper from_cur = from_cur" and "upper to_cur = to_cur"
    and "tbl from_cur = Some it" and "rates it = Some m" and "m to_cur = Some v"
  shows "compute_rate canonical_base tbl from_cur to_cur =
           (Inr (Some \<lparr>rate = Finite v, info_asOf = asOf it, provenance = Direct,
                       baseUsed = from_cur\<rparr>), [from_cur])"
  using assms by (rule compute_rate_direct)

theorem direct_precedence_witness:
  "lookup_rate (tbl_all ''USD'') ''EUR'' \<noteq> None \<and> lookup_rate (tbl_all ''USD'') ''GBP'' \<noteq> None
   \<and> lookup_rate (tbl_all ''GBP'') ''EUR'' \<noteq> None
   \<and> compute_rate ''USD'' tbl_all ''EUR'' ''GBP'' =
         (Inr (Some \<lparr>rate = Finite (FDec False 86 (- 2)),
                     info_asOf = Some ''2024-05-03T00:00:00Z'', provenance = Direct,
                     baseUsed = ''EUR''\<rparr>), [''EUR''])"
  using direct_precedence [of "''EUR''" "''GBP''" tbl_all
      "mk_item [(''GBP'', FDec False 86 (- 2))] ''2024-05-03T00:00:00Z''"
      "map_of [(''GBP'', FDec False 86 (- 2))]" "FDec False 86 (- 2)" "''USD''"]
  by (simp add: tbl_all_def mk_item_def lookup_rate_def)

text \<open>
  Claim C4 (unavailability). For a request that passes validation with two different
  codes: if the item of \<open>from\<close> has no rate for \<open>to\<close>, the item of the canonical base lacks
  one of the two codes or holds a zero rate for \<open>from\<close>, and the item of \<open>to\<close> has no rate for
  \<open>from\<close> or a zero one, then the handler answers with status 404, an error message and a
  hint: never with a result.
\<close>

theorem unavailable_not_found:
  assumes "param ev ''from'' = Some f" and "param ev ''to'' = Some t"
    and "param ev ''amount'' = Some a"
    and "length f = 3" and "length t = 3" and "upper f \<noteq> upper t"
    and "parse_amount a = Inr amount"
    and "lookup_rate (tbl (upper f)) (upper t) = None"
    and "lookup_rate (tbl (upper canonical_base)) (upper f) = None
         \<or> lookup_rate (tbl (upper canonical_base)) (upper t) = None
         \<or> (\<exists>v. lookup_rate (tbl (upper canonical_base)) (upper f) = Some v \<and> coeff v = 0)"
    and "lookup_rate (tbl (upper t)) (upper f) = None
         \<or> (\<exists>v. lookup_rate (tbl (upper t)) (upper f) = Some v \<and> coeff v = 0)"
  shows "lambda_handler canonical_base tbl ev =
           (Inr (not_found canonical_base (upper f) (upper t)),
            [upper f, upper canonical_base, upper t])
         \<and> statusCode (not_found canonical_base (upper f) (upper t)) = 404
         \<and> (\<exists>msg hint. body (not_found canonical_base (upper f) (upper t)) =
               ErrorBody msg (Some hint))"
  using assms by (rule handler_unavailable)

theorem unavailable_not_found_witness:
  "lambda_handler ''USD'' tbl_direct (request ''eur'' ''gbp'' ''10'') =
     (Inr (not_found ''USD'' ''EUR'' ''GBP''), [''EUR'', ''USD'', ''GBP''])
   \<and> lambda_handler ''USD'' tbl_zero (request ''EUR'' ''USD'' ''10'') =
     (Inr (not_found ''USD'' ''EUR'' ''USD''), [''EUR'', ''USD'', ''USD''])"
  using unavailable_not_found [of "request ''eur'' ''gbp'' ''10''" "''eur''" "''gbp''" "''10''"
      "Finite (FDec False 10 0)" tbl_direct "''USD''"]
    unavailable_not_found [of "request ''EUR'' ''USD'' ''10''" "''EUR''" "''USD''" "''10''"
      "Finite (FDec False 10 0)" tbl_zero "''USD''"]
  by (simp add: parse_amount_samples tbl_direct_def tbl_zero_def mk_item_def lookup_rate_def)

text \<open>
  Claim C5 (identity conversion), at the amounts \<^verbatim>\<open>1e24\<close> and \<^verbatim>\<open>Infinity\<close>: both pass the
  validation as non-negative amounts, and \<^verbatim>\<open>_round4\<close> then raises \<^verbatim>\<open>InvalidOperation\<close>, which
  nothing catches, instead of returning the identity result the claim promises. The amount
  \<^verbatim>\<open>NaN\<close> on the sibling path is answered with the client error for an invalid amount.
\<close>

theorem identity_large_amount_raises:
  "lambda_handler ''USD'' tbl_all (request ''USD'' ''USD'' ''1e24'') = (Inl InvalidOperation, [])
   \<and> lambda_handler ''USD'' tbl_all (request ''USD'' ''USD'' ''Infinity'') = (Inl InvalidOperation, [])
   \<and> lambda_handler ''USD'' tbl_all (request ''USD'' ''USD'' ''NaN'') = (Inr bad_amount, [])"
  by (simp add: handler_unfold code_param_def parse_amount_special round4_def quantize_def
      quantum_def adjusted_def Etiny_def Emin_def Emax_def prec_def)



text \<open>
  Claim C9 (positive rates), refuted: a stored rate of zero is returned as it is by the
  direct strategy.
\<close>

theorem positive_rate_counterexample:
  "compute_rate ''USD'' tbl_zero ''USD'' ''EUR'' =
     (Inr (Some \<lparr>rate = Finite (FDec False 0 0), info_asOf = Some ''2024-05-01T00:00:00Z'',
                 provenance = Direct, baseUsed = ''USD''\<rparr>), [''USD''])
   \<and> \<not> 0 < dec_val (FDec False 0 0)"
  using compute_rate_direct [of "''USD''" "''EUR''" tbl_zero
        "mk_item [(''EUR'', FDec False 0 0)] ''2024-05-01T00:00:00Z''"
        "map_of [(''EUR'', FDec False 0 0)]" "FDec False 0 0" "''USD''"]
  by (simp add: tbl_zero_def mk_item_def dec_val_def)

text \<open>
  Claim C10 (at most two reads), refuted: when the direct and the cross strategy give
  nothing, the handler reads a third key.
\<close>

theorem two_reads_counterexample:
  "snd (lambda_handler ''USD'' tbl_direct (request ''EUR'' ''GBP'' ''10'')) =
     [''EUR'', ''USD'', ''GBP'']
   \<and> \<not> length (snd (lambda_handler ''USD'' tbl_direct (request ''EUR'' ''GBP'' ''10''))) \<le> 2"
  using handler_unavailable [of "request ''EUR'' ''GBP'' ''10''" "''EUR''" "''GBP''" "''10''"
      "Finite (FDec False 10 0)" tbl_direct "''USD''"]
  by (simp add: parse_amount_samples tbl_direct_def mk_item_def lookup_rate_def)

text \<open>
  Claim C10 as amended. One request reads the table at most three times, by key, and the
  keys read are an initial part of: the code \<open>from\<close>, the canonical base, the code \<open>to\<close>.
  The table is never scanned: any table with the same items under the keys read gives the
  same outcome.
\<close>

theorem bounded_point_reads:
  "length (snd (lambda_handler canonical_base tbl ev)) \<le> 3
   \<and> (\<exists>n. snd (lambda_handler canonical_base tbl ev) =
            take n [code_param ev ''from'', upper canonical_base, code_param ev ''to''])
   \<and> (\<forall>tbl'. (\<forall>k \<in> set (snd (lambda_handler canonical_base tbl ev)). tbl' k = tbl k) \<longrightarrow>
         lambda_handler canonical_base tbl' ev = lambda_handler canonical_base tbl ev)"
proof -
  let ?r = "snd (lambda_handler canonical_base tbl ev)"
  let ?l = "[code_param ev ''from'', upper canonical_base, code_param ev ''to'']"
  have cases: "?r = [] \<or> ?r = [code_param ev ''from'']
      \<or> ?r = [code_param ev ''from'', upper canonical_base] \<or> ?r = ?l"
    using handler_reads [of canonical_base tbl ev] by simp
  then have "?r = take 0 ?l \<or> ?r = take 1 ?l \<or> ?r = take 2 ?l \<or> ?r = take 3 ?l"
    by (simp add: numeral_2_eq_2)
  then have 1: "\<exists>n. ?r = take n ?l" by blast
  have 2: "length ?r \<le> 3" using cases by auto
  have 3: "\<forall>tbl'. (\<forall>k \<in> set ?r. tbl' k = tbl k) \<longrightarrow>
         lambda_handler canonical_base tbl' ev = lambda_handler canonical_base tbl ev"
    using handler_local [of canonical_base tbl ev] by blast
  show ?thesis using 1 2 3 by blast
qed

theorem bounded_point_reads_witness:
  "snd (lambda_handler ''USD'' tbl_direct (request ''USD'' ''EUR'' ''10'')) = [''USD'']
   \<and> lambda_handler ''USD'' (tbl_direct(''JPY'' \<mapsto> mk_item [] ''2024-05-04T00:00:00Z''))
         (request ''USD'' ''EUR'' ''10'') =
       lambda_handler ''USD'' tbl_direct (request ''USD'' ''EUR'' ''10'')"
proof -
  have "converts (request ''USD'' ''EUR'' ''10'')"
    by (rule converts_request) (simp_all add: parse_amount_samples)
  then have r: "snd (lambda_handler ''USD'' tbl_direct (request ''USD'' ''EUR'' ''10'')) = [''USD'']"
    using compute_rate_direct [of "''USD''" "''EUR''" tbl_direct
        "mk_item [(''EUR'', FDec False 9200 (- 4))] ''2024-05-01T00:00:00Z''"
        "map_of [(''EUR'', FDec False 9200 (- 4))]" "FDec False 9200 (- 4)" "''USD''"]
    by (simp add: handler_converts_reads code_param_def tbl_direct_def mk_item_def)
  have "(\<forall>k \<in> set [''USD'']. (tbl_direct(''JPY'' \<mapsto> mk_item [] ''2024-05-04T00:00:00Z'')) k
            = tbl_direct k) \<longrightarrow>
        lambda_handler ''USD'' (tbl_direct(''JPY'' \<mapsto> mk_item [] ''2024-05-04T00:00:00Z''))
          (request ''USD'' ''EUR'' ''10'') =
        lambda_handler ''USD'' tbl_direct (request ''USD'' ''EUR'' ''10'')"
    using bounded_point_reads [of "''USD''" tbl_direct "request ''USD'' ''EUR'' ''10''"]
    unfolding r by blast
  then show ?thesis using r by simp
qed

end
